theory Spec2Isabelle
  imports Complex_Main "HOL-Library.Char_ord" "HOL-Library.List_Lexorder"
begin

section \<open>The trip store of bot.py (class DidiTrackerDB)\<close>

text \<open>
  The development embeds the database layer of \<^verbatim>\<open>src/bot.py\<close>: the four methods
  \<^verbatim>\<open>add_trip\<close>, \<^verbatim>\<open>get_daily_stats\<close>, \<^verbatim>\<open>get_weekly_stats\<close> and
  \<^verbatim>\<open>delete_daily_trips\<close> of \<^verbatim>\<open>DidiTrackerDB\<close>, over the table \<^verbatim>\<open>trips\<close>
  created by \<^verbatim>\<open>init_db\<close>.

  Modelling decisions, which hold for every definition below:
  \<^item> A Python \<^verbatim>\<open>float\<close> is a value of \<open>pyfloat\<close>: a real number or NaN. Arithmetic
    on the numbers is exact: rounding and the infinite floats are outside the model. A
    \<^verbatim>\<open>REAL NOT NULL\<close> column holds a \<open>real\<close>, since SQLite stores a NaN as NULL and the
    constraint refuses it. Python \<^verbatim>\<open>int\<close> is \<open>int\<close>, unbounded; an
    \<^verbatim>\<open>INTEGER\<close> column holds the signed 64-bit range.
  \<^item> The SQLite file is the explicit state \<open>store\<close>; a method that writes returns the
    new store. The exceptions that the arguments of a call can cause, in Python
    arithmetic and in the \<^verbatim>\<open>INSERT\<close>, are values of \<open>py_error\<close>. Failures of the
    file system are not modelled, and \<^verbatim>\<open>user_id\<close> is taken to be a Telegram id, which
    fits the \<^verbatim>\<open>INTEGER\<close> column.
  \<^item> \<^verbatim>\<open>datetime.now()\<close> is an argument \<open>now\<close> of each method that reads the clock.
    Only its calendar date is kept, because the code only ever formats it with
    \<^verbatim>\<open>'%Y-%m-%d'\<close> and shifts it by whole days.
\<close>

subsection \<open>Python arithmetic\<close>

datatype py_error = ZeroDivisionError | OverflowError | IntegrityError

datatype pyfloat = Num real | NaN

text \<open>
  The operator \<^verbatim>\<open>/\<close> on two floats: a zero divisor raises, whatever the dividend;
  otherwise a NaN operand gives NaN.
\<close>

definition py_truediv :: "pyfloat \<Rightarrow> pyfloat \<Rightarrow> py_error + pyfloat" where
  "py_truediv a b =
     (case b of
        NaN \<Rightarrow> Inr NaN
      | Num y \<Rightarrow>
          (if y = 0 then Inl ZeroDivisionError
           else (case a of NaN \<Rightarrow> Inr NaN | Num x \<Rightarrow> Inr (Num (x / y)))))"

text \<open>The comparison \<^verbatim>\<open>x > 0\<close> of a float: false for NaN.\<close>

definition float_gt_0 :: "pyfloat \<Rightarrow> bool" where
  "float_gt_0 a = (case a of NaN \<Rightarrow> False | Num x \<Rightarrow> x > 0)"

text \<open>
  The operator \<^verbatim>\<open>/\<close> on two ints gives the float nearest to the quotient, and
  raises \<^verbatim>\<open>OverflowError\<close> when that is beyond the largest float: from the magnitude
  \<^verbatim>\<open>2^1024 - 2^970\<close> on, half a unit in the last place above the largest float.
\<close>

definition float_overflow :: real where
  "float_overflow = 2 ^ 1024 - 2 ^ 970"

definition int_truediv :: "int \<Rightarrow> int \<Rightarrow> py_error + pyfloat" where
  "int_truediv a b =
     (if b = 0 then Inl ZeroDivisionError
      else if float_overflow \<le> \<bar>real_of_int a / real_of_int b\<bar> then Inl OverflowError
      else Inr (Num (real_of_int a / real_of_int b)))"

text \<open>
  \<^verbatim>\<open>x or 0\<close> on a value fetched from SQLite: \<^verbatim>\<open>None\<close> (SQL NULL) and a zero are
  both falsy, so both give \<^verbatim>\<open>0\<close>.
\<close>

fun or_0 :: "('a::zero) option \<Rightarrow> 'a" where
  "or_0 None = 0"
| "or_0 (Some v) = (if v = 0 then 0 else v)"

subsection \<open>Calendar dates: datetime, timedelta, strftime\<close>

datatype datetime = Datetime (year: nat) (month: nat) (day: nat)

definition is_leap :: "nat \<Rightarrow> bool" where
  "is_leap y \<longleftrightarrow> y mod 4 = 0 \<and> (y mod 100 \<noteq> 0 \<or> y mod 400 = 0)"

definition days_in_month :: "nat \<Rightarrow> nat \<Rightarrow> nat" where
  "days_in_month y m =
     (if m = 2 then (if is_leap y then 29 else 28)
      else if m = 4 \<or> m = 6 \<or> m = 9 \<or> m = 11 then 30
      else 31)"

text \<open>The dates Python's \<^verbatim>\<open>datetime\<close> can hold: years 1 to 9999 of the Gregorian calendar.\<close>

definition valid_date :: "datetime \<Rightarrow> bool" where
  "valid_date d \<longleftrightarrow>
     1 \<le> year d \<and> year d \<le> 9999 \<and> 1 \<le> month d \<and> month d \<le> 12 \<and>
     1 \<le> day d \<and> day d \<le> days_in_month (year d) (month d)"

text \<open>
  The day before. Going below 0001-01-01 leaves the range of \<^verbatim>\<open>datetime\<close>, where Python
  raises \<^verbatim>\<open>OverflowError\<close>.
\<close>

definition prev_day :: "datetime \<Rightarrow> py_error + datetime" where
  "prev_day d =
     (if 1 < day d then Inr (Datetime (year d) (month d) (day d - 1))
      else if 1 < month d
        then Inr (Datetime (year d) (month d - 1) (days_in_month (year d) (month d - 1)))
      else if 1 < year d then Inr (Datetime (year d - 1) 12 31)
      else Inl OverflowError)"

text \<open>\<^verbatim>\<open>d - timedelta(days=n)\<close>: the date \<open>n\<close> days before \<open>d\<close>.\<close>

fun minus_days :: "datetime \<Rightarrow> nat \<Rightarrow> py_error + datetime" where
  "minus_days d 0 = Inr d"
| "minus_days d (Suc n) =
     (case prev_day d of Inl e \<Rightarrow> Inl e | Inr p \<Rightarrow> minus_days p n)"

definition digit :: "nat \<Rightarrow> char" where
  "digit n = char_of (48 + n mod 10)"

definition zfill2 :: "nat \<Rightarrow> string" where
  "zfill2 n = [digit (n div 10), digit n]"

definition zfill4 :: "nat \<Rightarrow> string" where
  "zfill4 n = [digit (n div 1000), digit (n div 100), digit (n div 10), digit n]"

text \<open>\<^verbatim>\<open>d.strftime('%Y-%m-%d')\<close>: four digits of year, two of month, two of day.\<close>

definition strftime :: "datetime \<Rightarrow> string" where
  "strftime d = zfill4 (year d) @ ''-'' @ zfill2 (month d) @ ''-'' @ zfill2 (day d)"

subsection \<open>The table trips\<close>

text \<open>
  One row of \<^verbatim>\<open>trips\<close>, column by column as \<^verbatim>\<open>init_db\<close> creates it. The column
  \<^verbatim>\<open>id\<close> is named \<open>id_col\<close> here. Text values are compared as SQLite compares them
  under its default collation: byte by byte, which is the lexicographic order of
  \<open>string\<close>.
\<close>

record trip =
  id_col :: int
  user_id :: int
  user_name :: "string option"
  tariff :: real
  distance :: real
  duration :: int
  per_km :: real
  per_hour :: real
  timestamp :: string
  date :: string

text \<open>
  The database file: the rows in insertion order, and the largest row id ever given
  out, which \<^verbatim>\<open>AUTOINCREMENT\<close> keeps so that ids are never reused.
\<close>

record store =
  rows :: "trip list"
  last_id :: int

text \<open>
  \<^verbatim>\<open>init_db\<close>: \<^verbatim>\<open>CREATE TABLE IF NOT EXISTS\<close>. A missing file (\<open>None\<close>) becomes
  the empty table, an existing one is left as it is.
\<close>

definition init_db :: "store option \<Rightarrow> store" where
  "init_db file = (case file of None \<Rightarrow> \<lparr>rows = [], last_id = 0\<rparr> | Some db \<Rightarrow> db)"

text \<open>
  Passing a Python value to an \<^verbatim>\<open>INSERT\<close>. An int outside the signed 64-bit range
  cannot be bound: \<^verbatim>\<open>OverflowError\<close>. A float NaN is bound as NULL, which a
  \<^verbatim>\<open>NOT NULL\<close> column refuses when the statement runs: \<^verbatim>\<open>IntegrityError\<close>.
\<close>

definition bind_integer :: "int \<Rightarrow> py_error + int" where
  "bind_integer n = (if - (2 ^ 63) \<le> n \<and> n < 2 ^ 63 then Inr n else Inl OverflowError)"

definition not_null_real :: "pyfloat \<Rightarrow> py_error + real" where
  "not_null_real x = (case x of NaN \<Rightarrow> Inl IntegrityError | Num r \<Rightarrow> Inr r)"

subsection \<open>add\_trip\<close>

text \<open>Line 81: \<^verbatim>\<open>per_km = tariff / distance if distance > 0 else 0\<close>.\<close>

definition per_distance_rate :: "pyfloat \<Rightarrow> pyfloat \<Rightarrow> py_error + pyfloat" where
  "per_distance_rate trf dst = (if float_gt_0 dst then py_truediv trf dst else Inr (Num 0))"

text \<open>
  Line 82: \<^verbatim>\<open>per_hour = (tariff / (duration / 60)) if duration > 0 else 0\<close>. The inner
  division is of an \<^verbatim>\<open>int\<close> by the literal 60 and gives a float, or overflows.
\<close>

definition per_time_rate :: "pyfloat \<Rightarrow> int \<Rightarrow> py_error + pyfloat" where
  "per_time_rate trf dur =
     (if dur > 0
      then (case int_truediv dur 60 of
              Inl e \<Rightarrow> Inl e
            | Inr hours \<Rightarrow> py_truediv trf hours)
      else Inr (Num 0))"

text \<open>
  \<^verbatim>\<open>add_trip\<close>: computes both rates, reads the date, runs the \<^verbatim>\<open>INSERT\<close> and
  returns the rates. The \<^verbatim>\<open>INSERT\<close> first binds its parameters, where the duration
  must fit the \<^verbatim>\<open>INTEGER\<close> column, and then adds the row, where the four
  \<^verbatim>\<open>REAL NOT NULL\<close> columns refuse a NaN. \<open>ts\<close> is the value SQLite fills in for
  \<^verbatim>\<open>CURRENT_TIMESTAMP\<close>.
\<close>

definition add_trip ::
  "store \<Rightarrow> datetime \<Rightarrow> string \<Rightarrow> int \<Rightarrow> string option \<Rightarrow> pyfloat \<Rightarrow> pyfloat \<Rightarrow> int
     \<Rightarrow> py_error + (store \<times> pyfloat \<times> pyfloat)" where
  "add_trip db now ts uid uname trf dst dur =
     (case per_distance_rate trf dst of
        Inl e \<Rightarrow> Inl e
      | Inr pk \<Rightarrow>
     (case per_time_rate trf dur of
        Inl e \<Rightarrow> Inl e
      | Inr ph \<Rightarrow>
     (let today = strftime now in
     (case bind_integer dur of
        Inl e \<Rightarrow> Inl e
      | Inr dur_col \<Rightarrow>
     (case not_null_real trf of
        Inl e \<Rightarrow> Inl e
      | Inr trf_col \<Rightarrow>
     (case not_null_real dst of
        Inl e \<Rightarrow> Inl e
      | Inr dst_col \<Rightarrow>
     (case not_null_real pk of
        Inl e \<Rightarrow> Inl e
      | Inr pk_col \<Rightarrow>
     (case not_null_real ph of
        Inl e \<Rightarrow> Inl e
      | Inr ph_col \<Rightarrow>
          Inr (\<lparr>rows = rows db @
                   [\<lparr>id_col = last_id db + 1, user_id = uid, user_name = uname,
                     tariff = trf_col, distance = dst_col, duration = dur_col,
                     per_km = pk_col, per_hour = ph_col, timestamp = ts, date = today\<rparr>],
                 last_id = last_id db + 1\<rparr>, pk, ph)))))))))"

subsection \<open>The aggregate queries\<close>

text \<open>
  The SQL aggregates over the selected rows. \<^verbatim>\<open>COUNT(*)\<close> is never NULL;
  \<^verbatim>\<open>SUM\<close> and \<^verbatim>\<open>AVG\<close> are NULL when no row is selected. The columns are
  \<^verbatim>\<open>NOT NULL\<close>, so every selected row contributes.
\<close>

definition sql_count :: "'a list \<Rightarrow> int option" where
  "sql_count xs = Some (int (length xs))"

definition sql_sum :: "real list \<Rightarrow> real option" where
  "sql_sum xs = (if xs = [] then None else Some (sum_list xs))"

definition sql_avg :: "real list \<Rightarrow> real option" where
  "sql_avg xs = (if xs = [] then None else Some (sum_list xs / real (length xs)))"

text \<open>The dictionary both queries return.\<close>

record stats =
  trips_count :: int
  total_money :: real
  total_distance :: real
  avg_per_km :: real

text \<open>
  The \<^verbatim>\<open>SELECT COUNT(*), SUM(tariff), SUM(distance), AVG(per_km)\<close> over the rows
  that passed the \<^verbatim>\<open>WHERE\<close> clause, then the dictionary with \<^verbatim>\<open>or 0\<close> on each
  value. Both queries share these lines.
\<close>

definition fetch_stats :: "trip list \<Rightarrow> stats" where
  "fetch_stats sel =
     \<lparr>trips_count = or_0 (sql_count sel),
      total_money = or_0 (sql_sum (map tariff sel)),
      total_distance = or_0 (sql_sum (map distance sel)),
      avg_per_km = or_0 (sql_avg (map per_km sel))\<rparr>"

text \<open>
  \<^verbatim>\<open>get_daily_stats\<close>: \<^verbatim>\<open>WHERE user_id = ? AND date = ?\<close>; the date argument
  defaults to today's. \<open>select_daily\<close> is the rows the clause lets through.
\<close>

definition select_daily :: "store \<Rightarrow> int \<Rightarrow> string \<Rightarrow> trip list" where
  "select_daily db uid d = filter (\<lambda>t. user_id t = uid \<and> date t = d) (rows db)"

definition get_daily_stats :: "store \<Rightarrow> datetime \<Rightarrow> int \<Rightarrow> string option \<Rightarrow> stats" where
  "get_daily_stats db now uid date_arg =
     (let d = (case date_arg of None \<Rightarrow> strftime now | Some s \<Rightarrow> s)
      in fetch_stats (select_daily db uid d))"

text \<open>
  \<^verbatim>\<open>get_weekly_stats\<close>: \<^verbatim>\<open>week_ago\<close> is the date of
  \<^verbatim>\<open>datetime.now() - timedelta(days=7)\<close>, and the query is
  \<^verbatim>\<open>WHERE user_id = ? AND date >= ?\<close>, a comparison of text. \<open>select_weekly\<close>
  is the rows the clause lets through.
\<close>

definition select_weekly :: "store \<Rightarrow> int \<Rightarrow> string \<Rightarrow> trip list" where
  "select_weekly db uid week_ago =
     filter (\<lambda>t. user_id t = uid \<and> date t \<ge> week_ago) (rows db)"

definition get_weekly_stats :: "store \<Rightarrow> datetime \<Rightarrow> int \<Rightarrow> py_error + stats" where
  "get_weekly_stats db now uid =
     (case minus_days now 7 of
        Inl e \<Rightarrow> Inl e
      | Inr w \<Rightarrow>
          (let week_ago = strftime w
           in Inr (fetch_stats (select_weekly db uid week_ago))))"

subsection \<open>delete\_daily\_trips\<close>

text \<open>
  \<^verbatim>\<open>DELETE FROM trips WHERE user_id = ? AND date = ?\<close>, the date defaulting to
  today's. The id counter is not touched.
\<close>

definition delete_daily_trips :: "store \<Rightarrow> datetime \<Rightarrow> int \<Rightarrow> string option \<Rightarrow> store" where
  "delete_daily_trips db now uid date_arg =
     (let d = (case date_arg of None \<Rightarrow> strftime now | Some s \<Rightarrow> s)
      in db\<lparr>rows := filter (\<lambda>t. \<not> (user_id t = uid \<and> date t = d)) (rows db)\<rparr>)"

subsection \<open>Histories of the store\<close>

text \<open>
  Several calls of \<^verbatim>\<open>add_trip\<close> one after the other, for one user and on one
  day. Each call brings its own timestamp, user name, fare, distance and duration; the
  result is the final store and the rates each call returned, and the first exception
  ends the run.
\<close>

fun add_trips ::
  "store \<Rightarrow> datetime \<Rightarrow> int \<Rightarrow> (string \<times> string option \<times> pyfloat \<times> pyfloat \<times> int) list
     \<Rightarrow> py_error + (store \<times> (pyfloat \<times> pyfloat) list)" where
  "add_trips db now uid [] = Inr (db, [])"
| "add_trips db now uid ((ts, uname, trf, dst, dur) # calls) =
     (case add_trip db now ts uid uname trf dst dur of
        Inl e \<Rightarrow> Inl e
      | Inr (db', pk, ph) \<Rightarrow>
          (case add_trips db' now uid calls of
             Inl e \<Rightarrow> Inl e
           | Inr (db'', rates) \<Rightarrow> Inr (db'', (pk, ph) # rates)))"

definition call_tariff ::
  "string \<times> string option \<times> pyfloat \<times> pyfloat \<times> int \<Rightarrow> pyfloat" where
  "call_tariff c = (case c of (ts, uname, trf, dst, dur) \<Rightarrow> trf)"

definition call_distance ::
  "string \<times> string option \<times> pyfloat \<times> pyfloat \<times> int \<Rightarrow> pyfloat" where
  "call_distance c = (case c of (ts, uname, trf, dst, dur) \<Rightarrow> dst)"

definition call_duration ::
  "string \<times> string option \<times> pyfloat \<times> pyfloat \<times> int \<Rightarrow> int" where
  "call_duration c = (case c of (ts, uname, trf, dst, dur) \<Rightarrow> dur)"

text \<open>
  The stores the program can produce: the table \<^verbatim>\<open>init_db\<close> creates where there
  was no file, changed by any number of successful \<^verbatim>\<open>add_trip\<close> and
  \<^verbatim>\<open>delete_daily_trips\<close> calls with any arguments and any clock. The two queries
  are functions of the store that return a dictionary and no store: they only read.
\<close>

inductive reachable :: "store \<Rightarrow> bool" where
  created: "reachable (init_db None)"
| added: "reachable db \<Longrightarrow> add_trip db now ts uid uname trf dst dur = Inr (db', pk, ph)
            \<Longrightarrow> reachable db'"
| deleted: "reachable db \<Longrightarrow> reachable (delete_daily_trips db now uid date_arg)"

text \<open>
  The property of a row that its two stored rates are what lines 81 and 82 compute from
  the fare, distance and duration stored in the same row.
\<close>

definition stored_rates_ok :: "trip \<Rightarrow> bool" where
  "stored_rates_ok t \<longleftrightarrow>
     per_distance_rate (Num (tariff t)) (Num (distance t)) = Inr (Num (per_km t)) \<and>
     per_time_rate (Num (tariff t)) (duration t) = Inr (Num (per_hour t))"

section \<open>The rate formulas\<close>

lemma float_overflow_large: "2 ^ 1023 \<le> float_overflow"
proof -
  have "(2::real) ^ 970 \<le> 2 ^ 1023"
    by (rule power_increasing) simp_all
  moreover have "(2::real) ^ 1024 = 2 * 2 ^ 1023"
    by (simp only: power_Suc [symmetric]) simp
  ultimately show ?thesis
    unfolding float_overflow_def by linarith
qed

lemma int64_below_float_overflow:
  assumes "dur < (2::int) ^ 63"
  shows "real_of_int dur / 60 < float_overflow"
proof -
  have "real_of_int dur < 2 ^ 63"
    using assms by (metis of_int_less_iff of_int_numeral of_int_power)
  moreover have "(2::real) ^ 63 \<le> 2 ^ 1023"
    by (rule power_increasing) simp_all
  moreover have "real_of_int dur / 60 \<le> real_of_int dur \<or> real_of_int dur < 0"
    by (cases "real_of_int dur < 0") (simp_all add: field_simps)
  moreover have "(0::real) < 2 ^ 1023"
    by simp
  moreover have "real_of_int dur < 0 \<Longrightarrow> real_of_int dur / 60 < 0"
    by simp
  ultimately show ?thesis
    using float_overflow_large by linarith
qed

lemma int_truediv_60:
  assumes "0 < dur" "real_of_int dur / 60 < float_overflow"
  shows "int_truediv dur 60 = Inr (Num (real_of_int dur / 60))"
proof -
  have "\<bar>real_of_int dur / real_of_int 60\<bar> = real_of_int dur / 60"
    using assms(1) by simp
  then show ?thesis
    using assms(2) by (simp add: int_truediv_def)
qed

lemma int_truediv_60_overflow:
  assumes "0 < dur" "float_overflow \<le> real_of_int dur / 60"
  shows "int_truediv dur 60 = Inl OverflowError"
proof -
  have "\<bar>real_of_int dur / real_of_int 60\<bar> = real_of_int dur / 60"
    using assms(1) by simp
  then show ?thesis
    using assms(2) by (simp add: int_truediv_def)
qed

lemma per_distance_rate_total:
  "\<exists>pk. per_distance_rate trf dst = Inr pk"
  by (cases trf; cases dst) (simp_all add: per_distance_rate_def float_gt_0_def py_truediv_def)

lemma per_distance_rate_Num:
  "per_distance_rate (Num trf) (Num dst) = Inr (Num (if 0 < dst then trf / dst else 0))"
  by (simp add: per_distance_rate_def float_gt_0_def py_truediv_def)

lemma per_time_rate_Num:
  assumes "dur < 2 ^ 63"
  shows "per_time_rate (Num trf) dur =
           Inr (Num (if 0 < dur then trf / (real_of_int dur / 60) else 0))"
proof (cases "0 < dur")
  case True
  have "real_of_int dur / 60 < float_overflow"
    using assms by (rule int64_below_float_overflow)
  with True have "int_truediv dur 60 = Inr (Num (real_of_int dur / 60))"
    by (rule int_truediv_60)
  with True show ?thesis
    by (simp add: per_time_rate_def py_truediv_def)
next
  case False
  then show ?thesis by (simp add: per_time_rate_def)
qed

lemma per_time_rate_not_zero_division: "per_time_rate trf dur \<noteq> Inl ZeroDivisionError"
proof (cases "0 < dur")
  case True
  show ?thesis
  proof (cases "float_overflow \<le> real_of_int dur / 60")
    case True
    with \<open>0 < dur\<close> show ?thesis
      by (simp add: per_time_rate_def int_truediv_60_overflow)
  next
    case False
    with \<open>0 < dur\<close> have "int_truediv dur 60 = Inr (Num (real_of_int dur / 60))"
      by (simp add: int_truediv_60)
    with \<open>0 < dur\<close> show ?thesis
      by (cases trf) (simp_all add: per_time_rate_def py_truediv_def)
  qed
next
  case False
  then show ?thesis by (simp add: per_time_rate_def)
qed

text \<open>
  Claim C3. For every fare and distance, the rate per distance is the quotient
  fare / distance when the distance is positive (NaN for a NaN fare, as the float
  quotient is), and is 0 when the distance is 0; the result is a value (\<open>Inr\<close>), so the
  zero distance does not raise.
\<close>

theorem per_distance_rate_spec:
  "(0 < dst \<longrightarrow> per_distance_rate (Num trf) (Num dst) = Inr (Num (trf / dst)) \<and>
                per_distance_rate NaN (Num dst) = Inr NaN) \<and>
   (dst = 0 \<longrightarrow> per_distance_rate f (Num dst) = Inr (Num 0))"
  by (simp add: per_distance_rate_def float_gt_0_def py_truediv_def)

theorem per_distance_rate_spec_witness:
  "per_distance_rate (Num 5200) (Num 14) = Inr (Num (5200 / 14)) \<and>
   per_distance_rate NaN (Num 14) = Inr NaN \<and>
   per_distance_rate (Num 5200) (Num 0) = Inr (Num 0)"
  using per_distance_rate_spec [of 14 5200] per_distance_rate_spec [of 0 5200 "Num 5200"]
  by simp

text \<open>
  Claim C4 states the rate per hour for every duration. The inner division
  \<^verbatim>\<open>duration / 60\<close> is of ints, and raises \<^verbatim>\<open>OverflowError\<close> when its quotient is
  beyond the floats: the duration \<^verbatim>\<open>60 * 2^1024\<close> is positive and has no rate.
\<close>

theorem per_time_rate_overflow_counterexample:
  "(0::int) < 60 * 2 ^ 1024 \<and>
   per_time_rate (Num 5200) (60 * 2 ^ 1024) = Inl OverflowError"
proof -
  have pos: "(0::int) < 60 * 2 ^ 1024"
    by simp
  have "real_of_int (60 * 2 ^ 1024) / 60 = 2 ^ 1024"
    by simp
  moreover have "float_overflow \<le> 2 ^ 1024"
    by (simp add: float_overflow_def)
  ultimately have "float_overflow \<le> real_of_int (60 * 2 ^ 1024) / 60"
    by simp
  with pos have "int_truediv (60 * 2 ^ 1024) 60 = Inl OverflowError"
    by (rule int_truediv_60_overflow)
  with pos show ?thesis
    by (simp only: per_time_rate_def if_True sum.case simp_thms)
qed

text \<open>
  Claim C4, amended. For every fare and every duration in minutes, the rate per hour is
  fare / (duration / 60) when the duration is positive and duration / 60 is within the
  range of the floats, which holds for every duration below \<^verbatim>\<open>2^63\<close>, all that
  the \<^verbatim>\<open>INTEGER\<close> column can hold; and it is 0 when the duration is 0. In both cases
  the result is a value, so nothing is raised.
\<close>

theorem per_time_rate_spec:
  "(0 < dur \<and> real_of_int dur / 60 < float_overflow \<longrightarrow>
      per_time_rate (Num trf) dur = Inr (Num (trf / (real_of_int dur / 60))) \<and>
      per_time_rate NaN dur = Inr NaN) \<and>
   (dur < 2 ^ 63 \<longrightarrow> real_of_int dur / 60 < float_overflow) \<and>
   (dur = 0 \<longrightarrow> per_time_rate f dur = Inr (Num 0))"
proof (intro conjI impI)
  assume a: "0 < dur \<and> real_of_int dur / 60 < float_overflow"
  then have h: "int_truediv dur 60 = Inr (Num (real_of_int dur / 60))"
    by (simp add: int_truediv_60)
  from a h show "per_time_rate (Num trf) dur = Inr (Num (trf / (real_of_int dur / 60)))"
    by (simp add: per_time_rate_def py_truediv_def)
  from a h show "per_time_rate NaN dur = Inr NaN"
    by (simp add: per_time_rate_def py_truediv_def)
next
  assume "dur < 2 ^ 63"
  then show "real_of_int dur / 60 < float_overflow"
    by (rule int64_below_float_overflow)
next
  assume "dur = 0"
  then show "per_time_rate f dur = Inr (Num 0)"
    by (simp add: per_time_rate_def)
qed

theorem per_time_rate_spec_witness:
  "per_time_rate (Num 5200) 28 = Inr (Num (5200 / (28 / 60))) \<and>
   per_time_rate NaN 28 = Inr NaN \<and>
   per_time_rate (Num 5200) 0 = Inr (Num 0)"
proof -
  have "(28::int) < 2 ^ 63" by simp
  with per_time_rate_spec [of 28 5200] per_time_rate_spec [of 0 5200 "Num 5200"]
  show ?thesis by simp
qed

text \<open>
  Claim C9. The guards test that the denominator is strictly positive: a strictly
  negative distance gives the rate 0, which is not fare / distance unless the fare is 0,
  and a strictly negative duration gives the rate 0 likewise.
\<close>

theorem negative_denominator_gives_zero:
  "(dst < 0 \<longrightarrow> per_distance_rate f (Num dst) = Inr (Num 0)) \<and>
   (dst < 0 \<and> trf \<noteq> 0 \<longrightarrow> per_distance_rate (Num trf) (Num dst) \<noteq> Inr (Num (trf / dst))) \<and>
   (dur < 0 \<longrightarrow> per_time_rate f dur = Inr (Num 0)) \<and>
   (dur < 0 \<and> trf \<noteq> 0 \<longrightarrow>
      per_time_rate (Num trf) dur \<noteq> Inr (Num (trf / (real_of_int dur / 60))))"
  by (simp add: per_distance_rate_def per_time_rate_def float_gt_0_def)

theorem negative_denominator_gives_zero_witness:
  "per_distance_rate (Num 100) (Num (- 4)) = Inr (Num 0) \<and>
   per_distance_rate (Num 100) (Num (- 4)) \<noteq> Inr (Num (100 / (- 4))) \<and>
   per_time_rate (Num 100) (- 30) = Inr (Num 0) \<and>
   per_time_rate (Num 100) (- 30) \<noteq> Inr (Num (100 / (real_of_int (- 30) / 60)))"
  using negative_denominator_gives_zero [of "- 4" "Num 100" 100 "- 30"] by simp

section \<open>Insertion\<close>

lemma bind_integer_in_range:
  "- (2 ^ 63) \<le> dur \<Longrightarrow> dur < 2 ^ 63 \<Longrightarrow> bind_integer dur = Inr dur"
  by (simp add: bind_integer_def)

lemma add_trip_Num:
  assumes "- (2 ^ 63) \<le> dur" "dur < 2 ^ 63"
  shows "add_trip db now ts uid uname (Num trf) (Num dst) dur =
           Inr (\<lparr>rows = rows db @
                   [\<lparr>id_col = last_id db + 1, user_id = uid, user_name = uname,
                     tariff = trf, distance = dst, duration = dur,
                     per_km = (if 0 < dst then trf / dst else 0),
                     per_hour = (if 0 < dur then trf / (real_of_int dur / 60) else 0),
                     timestamp = ts, date = strftime now\<rparr>],
                  last_id = last_id db + 1\<rparr>,
                Num (if 0 < dst then trf / dst else 0),
                Num (if 0 < dur then trf / (real_of_int dur / 60) else 0))"
proof -
  have pk: "per_distance_rate (Num trf) (Num dst) = Inr (Num (if 0 < dst then trf / dst else 0))"
    by (rule per_distance_rate_Num)
  have ph: "per_time_rate (Num trf) dur =
              Inr (Num (if 0 < dur then trf / (real_of_int dur / 60) else 0))"
    using assms(2) by (rule per_time_rate_Num)
  have b: "bind_integer dur = Inr dur"
    using assms by (rule bind_integer_in_range)
  show ?thesis
    unfolding add_trip_def pk ph b by (simp add: not_null_real_def)
qed

lemma add_trip_success:
  assumes "add_trip db now ts uid uname trf dst dur = Inr (db', pk, ph)"
  shows "\<exists>x y. trf = Num x \<and> dst = Num y \<and> - (2 ^ 63) \<le> dur \<and> dur < 2 ^ 63"
proof -
  have r: "- (2 ^ 63) \<le> dur \<and> dur < 2 ^ 63"
  proof (rule ccontr)
    assume "\<not> (- (2 ^ 63) \<le> dur \<and> dur < 2 ^ 63)"
    then have "bind_integer dur = Inl OverflowError"
      by (auto simp add: bind_integer_def)
    then have "\<exists>e. add_trip db now ts uid uname trf dst dur = Inl e"
      by (simp add: add_trip_def split: sum.split)
    with assms show False by auto
  qed
  have t: "\<exists>x. trf = Num x"
  proof (cases trf)
    case NaN
    then have "\<exists>e. add_trip db now ts uid uname trf dst dur = Inl e"
      by (simp add: add_trip_def not_null_real_def split: sum.split)
    with assms show ?thesis by auto
  qed simp
  have d: "\<exists>y. dst = Num y"
  proof (cases dst)
    case NaN
    then have "\<exists>e. add_trip db now ts uid uname trf dst dur = Inl e"
      by (simp add: add_trip_def not_null_real_def split: sum.split pyfloat.split)
    with assms show ?thesis by auto
  qed simp
  from r t d show ?thesis by blast
qed

lemma add_trip_not_zero_division:
  "add_trip db now ts uid uname trf dst dur \<noteq> Inl ZeroDivisionError"
proof -
  obtain pk where pk: "per_distance_rate trf dst = Inr pk"
    using per_distance_rate_total by blast
  have ph: "per_time_rate trf dur \<noteq> Inl ZeroDivisionError"
    by (rule per_time_rate_not_zero_division)
  show ?thesis
    using ph unfolding add_trip_def pk
    by (auto simp add: bind_integer_def not_null_real_def Let_def
          split: sum.split pyfloat.split if_split)
qed

lemma per_time_rate_error:
  assumes "per_time_rate trf dur = Inl e"
  shows "e = OverflowError"
proof (cases "0 < dur")
  case True
  show ?thesis
  proof (cases "float_overflow \<le> real_of_int dur / 60")
    case True
    with \<open>0 < dur\<close> assms show ?thesis
      by (simp add: per_time_rate_def int_truediv_60_overflow)
  next
    case False
    with \<open>0 < dur\<close> have "int_truediv dur 60 = Inr (Num (real_of_int dur / 60))"
      by (simp add: int_truediv_60)
    with \<open>0 < dur\<close> assms show ?thesis
      by (cases trf) (simp_all add: per_time_rate_def py_truediv_def)
  qed
next
  case False
  with assms show ?thesis by (simp add: per_time_rate_def)
qed

lemma add_trip_duration_out_of_range:
  assumes "\<not> (- (2 ^ 63) \<le> dur \<and> dur < 2 ^ 63)"
  shows "add_trip db now ts uid uname trf dst dur = Inl OverflowError"
proof -
  obtain pk where pk: "per_distance_rate trf dst = Inr pk"
    using per_distance_rate_total by blast
  have b: "bind_integer dur = Inl OverflowError"
    using assms by (auto simp add: bind_integer_def)
  show ?thesis
  proof (cases "per_time_rate trf dur")
    case (Inl e)
    then have "e = OverflowError" by (rule per_time_rate_error)
    with Inl show ?thesis
      unfolding add_trip_def pk by simp
  next
    case (Inr ph)
    then show ?thesis
      unfolding add_trip_def pk b by simp
  qed
qed

lemma add_trip_NaN_tariff:
  assumes "- (2 ^ 63) \<le> dur" "dur < 2 ^ 63"
  shows "add_trip db now ts uid uname NaN dst dur = Inl IntegrityError"
proof -
  obtain pk where pk: "per_distance_rate NaN dst = Inr pk"
    using per_distance_rate_total by blast
  have b: "bind_integer dur = Inr dur"
    using assms by (rule bind_integer_in_range)
  have "\<exists>ph. per_time_rate NaN dur = Inr ph"
  proof (cases "0 < dur")
    case True
    have "real_of_int dur / 60 < float_overflow"
      using assms(2) by (rule int64_below_float_overflow)
    with True have "int_truediv dur 60 = Inr (Num (real_of_int dur / 60))"
      by (rule int_truediv_60)
    with True show ?thesis
      by (simp add: per_time_rate_def py_truediv_def)
  next
    case False
    then show ?thesis by (simp add: per_time_rate_def)
  qed
  then obtain ph where ph: "per_time_rate NaN dur = Inr ph" by blast
  show ?thesis
    unfolding add_trip_def pk ph b by (simp add: not_null_real_def)
qed

text \<open>
  Claim C8 states that \<^verbatim>\<open>add_trip\<close> succeeds for every numeric input. A duration of
  \<^verbatim>\<open>2^63\<close> cannot be bound to the \<^verbatim>\<open>INTEGER\<close> column and raises
  \<^verbatim>\<open>OverflowError\<close>; a NaN fare is refused by the \<^verbatim>\<open>NOT NULL\<close> column and raises
  \<^verbatim>\<open>IntegrityError\<close>.
\<close>

theorem add_trip_raises_counterexample:
  "add_trip (init_db None) (Datetime 2024 3 8) ''2024-03-08 15:00:00'' 1 None
     (Num 100) (Num 1) (2 ^ 63) = Inl OverflowError \<and>
   add_trip (init_db None) (Datetime 2024 3 8) ''2024-03-08 15:00:00'' 1 None
     NaN (Num 1) 1 = Inl IntegrityError"
proof -
  have "\<not> (- (2 ^ 63) \<le> (2::int) ^ 63 \<and> (2::int) ^ 63 < 2 ^ 63)"
    by simp
  then have a: "add_trip (init_db None) (Datetime 2024 3 8) ''2024-03-08 15:00:00'' 1 None
     (Num 100) (Num 1) (2 ^ 63) = Inl OverflowError"
    by (rule add_trip_duration_out_of_range)
  have "- (2 ^ 63) \<le> (1::int)" "(1::int) < 2 ^ 63"
    by simp_all
  then have b: "add_trip (init_db None) (Datetime 2024 3 8) ''2024-03-08 15:00:00'' 1 None
     NaN (Num 1) 1 = Inl IntegrityError"
    by (rule add_trip_NaN_tariff)
  from a b show ?thesis by blast
qed

text \<open>
  Claim C8, amended. \<^verbatim>\<open>add_trip\<close> checks nothing about the sign of its numbers: for
  every fare and distance that is a finite number and every duration within the signed
  64-bit range, zero and negative ones included, it returns normally, it stores one more row
  holding the numbers as given, and a rate whose denominator is zero or negative is
  returned as 0. For every input whatever, NaN and out of range included, the division
  by zero is not reached.
\<close>

theorem add_trip_accepts_any_numbers:
  "(- (2 ^ 63) \<le> dur \<and> dur < 2 ^ 63 \<longrightarrow>
     (\<exists>db' pk ph.
        add_trip db now ts uid uname (Num trf) (Num dst) dur = Inr (db', Num pk, Num ph) \<and>
        length (rows db') = Suc (length (rows db)) \<and>
        tariff (last (rows db')) = trf \<and> distance (last (rows db')) = dst \<and>
        duration (last (rows db')) = dur \<and>
        (dst \<le> 0 \<longrightarrow> pk = 0) \<and> (dur \<le> 0 \<longrightarrow> ph = 0))) \<and>
   add_trip db now ts uid uname f g d \<noteq> Inl ZeroDivisionError"
proof (intro conjI impI)
  assume "- (2 ^ 63) \<le> dur \<and> dur < 2 ^ 63"
  then have "add_trip db now ts uid uname (Num trf) (Num dst) dur =
           Inr (\<lparr>rows = rows db @
                   [\<lparr>id_col = last_id db + 1, user_id = uid, user_name = uname,
                     tariff = trf, distance = dst, duration = dur,
                     per_km = (if 0 < dst then trf / dst else 0),
                     per_hour = (if 0 < dur then trf / (real_of_int dur / 60) else 0),
                     timestamp = ts, date = strftime now\<rparr>],
                  last_id = last_id db + 1\<rparr>,
                Num (if 0 < dst then trf / dst else 0),
                Num (if 0 < dur then trf / (real_of_int dur / 60) else 0))"
    by (simp add: add_trip_Num)
  then show "\<exists>db' pk ph.
        add_trip db now ts uid uname (Num trf) (Num dst) dur = Inr (db', Num pk, Num ph) \<and>
        length (rows db') = Suc (length (rows db)) \<and>
        tariff (last (rows db')) = trf \<and> distance (last (rows db')) = dst \<and>
        duration (last (rows db')) = dur \<and>
        (dst \<le> 0 \<longrightarrow> pk = 0) \<and> (dur \<le> 0 \<longrightarrow> ph = 0)"
    by simp
next
  show "add_trip db now ts uid uname f g d \<noteq> Inl ZeroDivisionError"
    by (rule add_trip_not_zero_division)
qed

theorem add_trip_accepts_any_numbers_witness:
  "\<exists>db' pk ph.
     add_trip (init_db None) (Datetime 2024 3 8) ''2024-03-08 15:00:00'' 1 None
       (Num (- 5)) (Num 0) 0 = Inr (db', Num pk, Num ph) \<and>
     length (rows db') = 1 \<and>
     tariff (last (rows db')) = - 5 \<and> distance (last (rows db')) = 0 \<and>
     duration (last (rows db')) = 0 \<and> pk = 0 \<and> ph = 0"
  using add_trip_accepts_any_numbers
    [of 0 "init_db None" "Datetime 2024 3 8" "''2024-03-08 15:00:00''" 1 None "- 5" 0]
  by (simp add: init_db_def)

section \<open>Calendar facts\<close>

lemma strftime_example: "strftime (Datetime 2024 3 8) = ''2024-03-08''"
  by code_simp

lemma days_in_month_bounds: "28 \<le> days_in_month y m \<and> days_in_month y m \<le> 31"
  by (simp add: days_in_month_def)

lemma valid_prev_day:
  assumes "valid_date d" "1 < year d"
  shows "\<exists>p. prev_day d = Inr p \<and> valid_date p \<and> year d - 1 \<le> year p"
proof -
  have b: "1 \<le> days_in_month (year d) (month d - 1)"
    using days_in_month_bounds [of "year d" "month d - 1"] by linarith
  consider (day) "1 < day d" | (month) "day d \<le> 1" "1 < month d" | (year) "day d \<le> 1" "month d \<le> 1"
    by linarith
  then show ?thesis
  proof cases
    case day
    with assms show ?thesis by (auto simp add: prev_day_def valid_date_def)
  next
    case month
    with assms b show ?thesis by (auto simp add: prev_day_def valid_date_def)
  next
    case year
    with assms show ?thesis by (auto simp add: prev_day_def valid_date_def days_in_month_def)
  qed
qed

lemma minus_days_succeeds:
  "valid_date d \<Longrightarrow> n < year d \<Longrightarrow>
     \<exists>p. minus_days d n = Inr p \<and> valid_date p \<and> year d - n \<le> year p"
proof (induction n arbitrary: d)
  case 0
  then show ?case by simp
next
  case (Suc n)
  from Suc.prems obtain q where q: "prev_day d = Inr q" "valid_date q" "year d - 1 \<le> year q"
    using valid_prev_day [of d] by auto
  with Suc.prems have "n < year q" by simp
  from Suc.IH [OF q(2) this] obtain p where
    p: "minus_days q n = Inr p" "valid_date p" "year q - n \<le> year p" by blast
  with q show ?case by simp
qed

lemma week_ago_exists:
  assumes "valid_date now" "1970 \<le> year now"
  shows "\<exists>w. minus_days now 7 = Inr w \<and> valid_date w"
proof -
  from assms have "7 < year now" by simp
  from minus_days_succeeds [OF assms(1) this] show ?thesis by blast
qed

section \<open>The aggregate queries\<close>

lemma fetch_stats_Nil:
  "fetch_stats [] = \<lparr>trips_count = 0, total_money = 0, total_distance = 0, avg_per_km = 0\<rparr>"
  by (simp add: fetch_stats_def sql_count_def sql_sum_def sql_avg_def)

lemma fetch_stats_eq:
  "fetch_stats sel =
     \<lparr>trips_count = int (length sel),
      total_money = sum_list (map tariff sel),
      total_distance = sum_list (map distance sel),
      avg_per_km = (if sel = [] then 0 else sum_list (map per_km sel) / real (length sel))\<rparr>"
  by (simp add: fetch_stats_def sql_count_def sql_sum_def sql_avg_def)

text \<open>
  Claim C5. When no row of the store matches the query of a user, the query returns the
  dictionary of zeros and raises nothing. For \<^verbatim>\<open>get_daily_stats\<close> the rows that match
  are those of the user on the requested day. For \<^verbatim>\<open>get_weekly_stats\<close> they are those
  of the user whose date is not below \<^verbatim>\<open>week_ago\<close>; the clock is taken to show a date
  of the calendar from 1970 on, so that the date seven days earlier exists.
\<close>

theorem empty_selection_gives_zero:
  "((\<forall>t \<in> set (rows db). \<not> (user_id t = uid \<and>
        date t = (case date_arg of None \<Rightarrow> strftime now | Some s \<Rightarrow> s)))
     \<longrightarrow> get_daily_stats db now uid date_arg =
          \<lparr>trips_count = 0, total_money = 0, total_distance = 0, avg_per_km = 0\<rparr>) \<and>
   (valid_date now \<and> 1970 \<le> year now \<longrightarrow>
      (\<exists>w. minus_days now 7 = Inr w \<and>
         ((\<forall>t \<in> set (rows db). \<not> (user_id t = uid \<and> date t \<ge> strftime w))
          \<longrightarrow> get_weekly_stats db now uid =
               Inr \<lparr>trips_count = 0, total_money = 0, total_distance = 0, avg_per_km = 0\<rparr>)))"
proof (intro conjI impI)
  assume "\<forall>t \<in> set (rows db). \<not> (user_id t = uid \<and>
        date t = (case date_arg of None \<Rightarrow> strftime now | Some s \<Rightarrow> s))"
  then have "select_daily db uid (case date_arg of None \<Rightarrow> strftime now | Some s \<Rightarrow> s) = []"
    by (simp add: select_daily_def filter_empty_conv)
  then show "get_daily_stats db now uid date_arg =
          \<lparr>trips_count = 0, total_money = 0, total_distance = 0, avg_per_km = 0\<rparr>"
    by (simp add: get_daily_stats_def fetch_stats_Nil)
next
  assume "valid_date now \<and> 1970 \<le> year now"
  then obtain w where w: "minus_days now 7 = Inr w"
    using week_ago_exists by blast
  have "get_weekly_stats db now uid =
               Inr \<lparr>trips_count = 0, total_money = 0, total_distance = 0, avg_per_km = 0\<rparr>"
    if "\<forall>t \<in> set (rows db). \<not> (user_id t = uid \<and> date t \<ge> strftime w)"
  proof -
    from that have "select_weekly db uid (strftime w) = []"
      by (simp add: select_weekly_def filter_empty_conv)
    with w show ?thesis
      by (simp add: get_weekly_stats_def fetch_stats_Nil)
  qed
  with w show "\<exists>w. minus_days now 7 = Inr w \<and>
         ((\<forall>t \<in> set (rows db). \<not> (user_id t = uid \<and> date t \<ge> strftime w))
          \<longrightarrow> get_weekly_stats db now uid =
               Inr \<lparr>trips_count = 0, total_money = 0, total_distance = 0, avg_per_km = 0\<rparr>)"
    by blast
qed

theorem empty_selection_gives_zero_witness:
  "get_daily_stats
     \<lparr>rows = [\<lparr>id_col = 1, user_id = 2, user_name = None, tariff = 1000, distance = 5,
               duration = 10, per_km = 200, per_hour = 6000, timestamp = ''2024-03-08 10:00:00'',
               date = ''2024-03-08''\<rparr>], last_id = 1\<rparr>
     (Datetime 2024 3 8) 1 None
     = \<lparr>trips_count = 0, total_money = 0, total_distance = 0, avg_per_km = 0\<rparr> \<and>
   get_weekly_stats
     \<lparr>rows = [\<lparr>id_col = 1, user_id = 2, user_name = None, tariff = 1000, distance = 5,
               duration = 10, per_km = 200, per_hour = 6000, timestamp = ''2024-03-08 10:00:00'',
               date = ''2024-03-08''\<rparr>], last_id = 1\<rparr>
     (Datetime 2024 3 8) 1
     = Inr \<lparr>trips_count = 0, total_money = 0, total_distance = 0, avg_per_km = 0\<rparr>"
proof -
  let ?db = "\<lparr>rows = [\<lparr>id_col = 1, user_id = 2, user_name = None, tariff = 1000, distance = 5,
               duration = 10, per_km = 200, per_hour = 6000, timestamp = ''2024-03-08 10:00:00'',
               date = ''2024-03-08''\<rparr>], last_id = 1\<rparr>"
  let ?now = "Datetime 2024 3 8"
  have v: "valid_date ?now \<and> 1970 \<le> year ?now"
    by (simp add: valid_date_def days_in_month_def)
  have m: "minus_days ?now 7 = Inr (Datetime 2024 3 1)"
    by (simp add: eval_nat_numeral prev_day_def)
  from empty_selection_gives_zero [where db = ?db and uid = 1 and date_arg = None and now = ?now] v m
  show ?thesis
    by simp
qed

section \<open>Deletion\<close>

text \<open>
  Claim C6. \<^verbatim>\<open>delete_daily_trips\<close> for a user and a day \<open>d\<close> (the argument, or
  today's date when there is none) leaves no row of that user and day, leaves the rows of
  every other user or day as they were and in their order, keeps the id counter, and
  returns the store unchanged when no row matches.
\<close>

theorem delete_daily_trips_frame:
  assumes "d = (case date_arg of None \<Rightarrow> strftime now | Some s \<Rightarrow> s)"
    and "db' = delete_daily_trips db now uid date_arg"
  shows "(\<forall>t \<in> set (rows db'). \<not> (user_id t = uid \<and> date t = d)) \<and>
         filter (\<lambda>t. user_id t \<noteq> uid \<or> date t \<noteq> d) (rows db')
           = filter (\<lambda>t. user_id t \<noteq> uid \<or> date t \<noteq> d) (rows db) \<and>
         last_id db' = last_id db \<and>
         ((\<forall>t \<in> set (rows db). \<not> (user_id t = uid \<and> date t = d)) \<longrightarrow> db' = db)"
proof -
  have r: "rows db' = filter (\<lambda>t. \<not> (user_id t = uid \<and> date t = d)) (rows db)"
    using assms by (simp add: delete_daily_trips_def)
  have l: "last_id db' = last_id db"
    using assms by (simp add: delete_daily_trips_def)
  have a: "\<forall>t \<in> set (rows db'). \<not> (user_id t = uid \<and> date t = d)"
    using r by simp
  have b: "filter (\<lambda>t. user_id t \<noteq> uid \<or> date t \<noteq> d) (rows db')
           = filter (\<lambda>t. user_id t \<noteq> uid \<or> date t \<noteq> d) (rows db)"
    unfolding r by (induction "rows db" arbitrary: db) (simp, simp add: de_Morgan_conj)
  have c: "db' = db" if "\<forall>t \<in> set (rows db). \<not> (user_id t = uid \<and> date t = d)"
  proof -
    from that have "filter (\<lambda>t. \<not> (user_id t = uid \<and> date t = d)) (rows db) = rows db"
      by (simp add: filter_id_conv)
    with r l show ?thesis by simp
  qed
  from a b l c show ?thesis by blast
qed

theorem delete_daily_trips_frame_witness:
  "delete_daily_trips
     \<lparr>rows = [\<lparr>id_col = 1, user_id = 1, user_name = None, tariff = 1000, distance = 5,
               duration = 10, per_km = 200, per_hour = 6000, timestamp = ''2024-03-08 10:00:00'',
               date = ''2024-03-08''\<rparr>,
              \<lparr>id_col = 2, user_id = 2, user_name = None, tariff = 2000, distance = 10,
               duration = 20, per_km = 200, per_hour = 6000, timestamp = ''2024-03-08 11:00:00'',
               date = ''2024-03-08''\<rparr>], last_id = 2\<rparr>
     (Datetime 2024 3 8) 3 None
   = \<lparr>rows = [\<lparr>id_col = 1, user_id = 1, user_name = None, tariff = 1000, distance = 5,
               duration = 10, per_km = 200, per_hour = 6000, timestamp = ''2024-03-08 10:00:00'',
               date = ''2024-03-08''\<rparr>,
              \<lparr>id_col = 2, user_id = 2, user_name = None, tariff = 2000, distance = 10,
               duration = 20, per_km = 200, per_hour = 6000, timestamp = ''2024-03-08 11:00:00'',
               date = ''2024-03-08''\<rparr>], last_id = 2\<rparr>"
proof -
  let ?db = "\<lparr>rows = [\<lparr>id_col = 1, user_id = 1, user_name = None, tariff = 1000, distance = 5,
               duration = 10, per_km = 200, per_hour = 6000, timestamp = ''2024-03-08 10:00:00'',
               date = ''2024-03-08''\<rparr>,
              \<lparr>id_col = 2, user_id = 2, user_name = None, tariff = 2000, distance = 10,
               duration = 20, per_km = 200, per_hour = 6000, timestamp = ''2024-03-08 11:00:00'',
               date = ''2024-03-08''\<rparr>], last_id = 2\<rparr>"
  have d: "''2024-03-08'' = (case None of None \<Rightarrow> strftime (Datetime 2024 3 8) | Some s \<Rightarrow> s)"
    by (simp add: strftime_example)
  from delete_daily_trips_frame [OF d refl, where db = ?db and uid = 3]
  show ?thesis by simp
qed

section \<open>Inserting and then querying\<close>

lemma add_trips_result:
  "add_trips db now uid calls = Inr (db', rates) \<Longrightarrow>
     \<exists>new fares dists pks.
       rows db' = rows db @ new \<and> length new = length calls \<and>
       length rates = length calls \<and>
       (\<forall>t \<in> set new. user_id t = uid \<and> date t = strftime now) \<and>
       map call_tariff calls = map Num fares \<and> map tariff new = fares \<and>
       map call_distance calls = map Num dists \<and> map distance new = dists \<and>
       map fst rates = map Num pks \<and> map per_km new = pks"
proof (induction calls arbitrary: db db' rates)
  case Nil
  then show ?case by simp
next
  case (Cons c calls)
  obtain ts uname trf dst dur where c: "c = (ts, uname, trf, dst, dur)"
    by (cases c) auto
  from Cons.prems c obtain db1 pk ph rates1 where
    step: "add_trip db now ts uid uname trf dst dur = Inr (db1, pk, ph)"
    and run: "add_trips db1 now uid calls = Inr (db', rates1)"
    and rates: "rates = (pk, ph) # rates1"
    by (auto split: sum.splits)
  from add_trip_success [OF step] obtain x y where
    xy: "trf = Num x" "dst = Num y" and range: "- (2 ^ 63) \<le> dur" "dur < 2 ^ 63"
    by blast
  let ?pk = "if 0 < y then x / y else 0"
  let ?row = "\<lparr>id_col = last_id db + 1, user_id = uid, user_name = uname,
                tariff = x, distance = y, duration = dur, per_km = ?pk,
                per_hour = (if 0 < dur then x / (real_of_int dur / 60) else 0),
                timestamp = ts, date = strftime now\<rparr>"
  from step xy add_trip_Num [OF range, of db now ts uid uname x y]
  have db1: "rows db1 = rows db @ [?row]" and pk: "pk = Num ?pk"
    by auto
  from Cons.IH [OF run] obtain new fares dists pks where
    ih: "rows db' = rows db1 @ new" "length new = length calls"
        "length rates1 = length calls"
        "\<forall>t \<in> set new. user_id t = uid \<and> date t = strftime now"
        "map call_tariff calls = map Num fares" "map tariff new = fares"
        "map call_distance calls = map Num dists" "map distance new = dists"
        "map fst rates1 = map Num pks" "map per_km new = pks"
    by blast
  have f1: "rows db' = rows db @ (?row # new)"
    using ih(1) db1 by simp
  have f2: "length (?row # new) = length (c # calls)"
    using ih(2) by simp
  have f3: "length rates = length (c # calls)"
    using ih(3) rates by simp
  have f4: "\<forall>t \<in> set (?row # new). user_id t = uid \<and> date t = strftime now"
    using ih(4) by simp
  have f5: "map call_tariff (c # calls) = map Num (x # fares)"
    using ih(5) c xy by (simp add: call_tariff_def)
  have f6: "map tariff (?row # new) = x # fares"
    using ih(6) by simp
  have f7: "map call_distance (c # calls) = map Num (y # dists)"
    using ih(7) c xy by (simp add: call_distance_def)
  have f8: "map distance (?row # new) = y # dists"
    using ih(8) by simp
  have f9: "map fst rates = map Num (?pk # pks)"
    using ih(9) rates pk by simp
  have f10: "map per_km (?row # new) = ?pk # pks"
    using ih(10) by simp
  show ?case
    by (rule exI [where x = "?row # new"], rule exI [where x = "x # fares"],
        rule exI [where x = "y # dists"], rule exI [where x = "?pk # pks"])
       (intro conjI f1 f2 f3 f4 f5 f6 f7 f8 f9 f10)
qed

lemma add_trips_succeeds:
  "\<forall>c \<in> set calls. call_tariff c \<noteq> NaN \<and> call_distance c \<noteq> NaN \<and>
       - (2 ^ 63) \<le> call_duration c \<and> call_duration c < 2 ^ 63 \<Longrightarrow>
     \<exists>db' rates. add_trips db now uid calls = Inr (db', rates)"
proof (induction calls arbitrary: db)
  case Nil
  show ?case by simp
next
  case (Cons c calls)
  obtain ts uname trf dst dur where c: "c = (ts, uname, trf, dst, dur)"
    by (cases c) auto
  from Cons.prems c have "trf \<noteq> NaN" "dst \<noteq> NaN"
    and range: "- (2 ^ 63) \<le> dur" "dur < 2 ^ 63"
    by (simp_all add: call_tariff_def call_distance_def call_duration_def)
  then obtain x y where xy: "trf = Num x" "dst = Num y"
    by (cases trf; cases dst) auto
  from add_trip_Num [OF range, of db now ts uid uname x y] xy
  obtain db1 pk ph where step: "add_trip db now ts uid uname trf dst dur = Inr (db1, pk, ph)"
    by blast
  from Cons.prems have "\<forall>c \<in> set calls. call_tariff c \<noteq> NaN \<and> call_distance c \<noteq> NaN \<and>
       - (2 ^ 63) \<le> call_duration c \<and> call_duration c < 2 ^ 63"
    by simp
  from Cons.IH [OF this, of db1] obtain db' rates where
    "add_trips db1 now uid calls = Inr (db', rates)"
    by blast
  with step c show ?case by simp
qed

text \<open>
  Claim C2. Starting from a store with no row of the user on the day, take any run of N
  calls of \<^verbatim>\<open>add_trip\<close> for that user on that day. When the run has taken place, that
  is when no call raised, every fare and distance was a number and
  \<^verbatim>\<open>get_daily_stats\<close> for the user and the day returns the count N, the sum of the N
  fares, the sum of the N distances, and the mean of the N rates per distance that the
  calls returned, which are the rates stored in the N new rows; with N = 0 the mean is
  reported as 0. And the run does take place whenever no fare or distance is NaN and
  every duration fits the \<^verbatim>\<open>INTEGER\<close> column.
\<close>

theorem daily_stats_after_inserts:
  assumes "\<forall>t \<in> set (rows db). \<not> (user_id t = uid \<and> date t = strftime now)"
  shows "(\<forall>db' rates. add_trips db now uid calls = Inr (db', rates) \<longrightarrow>
            (\<exists>fares dists pks.
               map call_tariff calls = map Num fares \<and>
               map call_distance calls = map Num dists \<and>
               map fst rates = map Num pks \<and> length rates = length calls \<and>
               map per_km (drop (length (rows db)) (rows db')) = pks \<and>
               get_daily_stats db' later uid (Some (strftime now)) =
                 \<lparr>trips_count = int (length calls),
                  total_money = sum_list fares,
                  total_distance = sum_list dists,
                  avg_per_km = (if calls = [] then 0
                                else sum_list pks / real (length calls))\<rparr> \<and>
               get_daily_stats db' now uid None =
                 get_daily_stats db' later uid (Some (strftime now)))) \<and>
         ((\<forall>c \<in> set calls. call_tariff c \<noteq> NaN \<and> call_distance c \<noteq> NaN \<and>
              - (2 ^ 63) \<le> call_duration c \<and> call_duration c < 2 ^ 63) \<longrightarrow>
            (\<exists>db' rates. add_trips db now uid calls = Inr (db', rates)))"
proof (intro conjI allI impI)
  fix db' rates
  assume run: "add_trips db now uid calls = Inr (db', rates)"
  from add_trips_result [OF run] obtain new fares dists pks where
    r: "rows db' = rows db @ new" "length new = length calls"
       "length rates = length calls"
       "\<forall>t \<in> set new. user_id t = uid \<and> date t = strftime now"
       "map call_tariff calls = map Num fares" "map tariff new = fares"
       "map call_distance calls = map Num dists" "map distance new = dists"
       "map fst rates = map Num pks" "map per_km new = pks"
    by blast
  have old: "filter (\<lambda>t. user_id t = uid \<and> date t = strftime now) (rows db) = []"
    using assms by (simp add: filter_empty_conv)
  have new: "filter (\<lambda>t. user_id t = uid \<and> date t = strftime now) new = new"
    using r(4) by (simp add: filter_id_conv)
  have sel: "select_daily db' uid (strftime now) = new"
    using r(1) old new by (simp add: select_daily_def)
  have empty: "new = [] \<longleftrightarrow> calls = []"
    using r(2) by (metis length_0_conv)
  have stats: "get_daily_stats db' later uid (Some (strftime now)) =
                 \<lparr>trips_count = int (length calls),
                  total_money = sum_list fares,
                  total_distance = sum_list dists,
                  avg_per_km = (if calls = [] then 0
                                else sum_list pks / real (length calls))\<rparr>"
    using sel r(2) r(6) r(8) r(10) empty
    by (simp add: get_daily_stats_def fetch_stats_eq)
  have same: "get_daily_stats db' now uid None =
                get_daily_stats db' later uid (Some (strftime now))"
    by (simp add: get_daily_stats_def)
  have stored: "map per_km (drop (length (rows db)) (rows db')) = pks"
    using r(1) r(10) by simp
  from r(5) r(7) r(9) r(3) stored stats same
  show "\<exists>fares dists pks.
               map call_tariff calls = map Num fares \<and>
               map call_distance calls = map Num dists \<and>
               map fst rates = map Num pks \<and> length rates = length calls \<and>
               map per_km (drop (length (rows db)) (rows db')) = pks \<and>
               get_daily_stats db' later uid (Some (strftime now)) =
                 \<lparr>trips_count = int (length calls),
                  total_money = sum_list fares,
                  total_distance = sum_list dists,
                  avg_per_km = (if calls = [] then 0
                                else sum_list pks / real (length calls))\<rparr> \<and>
               get_daily_stats db' now uid None =
                 get_daily_stats db' later uid (Some (strftime now))"
    by blast
next
  assume "\<forall>c \<in> set calls. call_tariff c \<noteq> NaN \<and> call_distance c \<noteq> NaN \<and>
              - (2 ^ 63) \<le> call_duration c \<and> call_duration c < 2 ^ 63"
  then show "\<exists>db' rates. add_trips db now uid calls = Inr (db', rates)"
    by (rule add_trips_succeeds)
qed

theorem daily_stats_after_inserts_witness:
  "\<exists>db' rates.
     add_trips (init_db None) (Datetime 2024 3 8) 2
       [(''2024-03-08 10:00:00'', None, Num 1000, Num 5, 10),
        (''2024-03-08 11:00:00'', None, Num 2000, Num 10, 20)] = Inr (db', rates) \<and>
     rates = [(Num 200, Num 6000), (Num 200, Num 6000)] \<and>
     get_daily_stats db' (Datetime 2024 3 9) 2 (Some ''2024-03-08'') =
       \<lparr>trips_count = 2, total_money = 3000, total_distance = 15, avg_per_km = 200\<rparr>"
proof -
  let ?calls = "[(''2024-03-08 10:00:00'', None, Num 1000, Num 5, 10),
        (''2024-03-08 11:00:00'', None, Num 2000, Num 10, 20)]
        :: (string \<times> string option \<times> pyfloat \<times> pyfloat \<times> int) list"
  have h: "\<forall>t \<in> set (rows (init_db None)).
             \<not> (user_id t = 2 \<and> date t = strftime (Datetime 2024 3 8))"
    by (simp add: init_db_def)
  have ok: "\<forall>c \<in> set ?calls. call_tariff c \<noteq> NaN \<and> call_distance c \<noteq> NaN \<and>
              - (2 ^ 63) \<le> call_duration c \<and> call_duration c < 2 ^ 63"
    by (simp add: call_tariff_def call_distance_def call_duration_def)
  have r10: "- (2 ^ 63) \<le> (10::int)" "(10::int) < 2 ^ 63"
    and r20: "- (2 ^ 63) \<le> (20::int)" "(20::int) < 2 ^ 63"
    by simp_all
  have run: "\<exists>db'. add_trips (init_db None) (Datetime 2024 3 8) 2 ?calls
               = Inr (db', [(Num 200, Num 6000), (Num 200, Num 6000)])"
    by (simp add: add_trip_Num [OF r10] add_trip_Num [OF r20])
  from daily_stats_after_inserts
         [OF h, where calls = ?calls and later = "Datetime 2024 3 9"] ok run
  show ?thesis
    by (auto simp add: strftime_example call_tariff_def call_distance_def)
qed

section \<open>The stored rates\<close>

lemma add_trip_keeps_rates:
  assumes "\<forall>t \<in> set (rows db). stored_rates_ok t"
    and "add_trip db now ts uid uname trf dst dur = Inr (db', pk, ph)"
  shows "\<forall>t \<in> set (rows db'). stored_rates_ok t"
proof -
  from add_trip_success [OF assms(2)] obtain x y where
    xy: "trf = Num x" "dst = Num y" and range: "- (2 ^ 63) \<le> dur" "dur < 2 ^ 63"
    by blast
  let ?row = "\<lparr>id_col = last_id db + 1, user_id = uid, user_name = uname,
                tariff = x, distance = y, duration = dur,
                per_km = (if 0 < y then x / y else 0),
                per_hour = (if 0 < dur then x / (real_of_int dur / 60) else 0),
                timestamp = ts, date = strftime now\<rparr>"
  from assms(2) xy add_trip_Num [OF range, of db now ts uid uname x y]
  have rows: "rows db' = rows db @ [?row]"
    by auto
  have "stored_rates_ok ?row"
    using range(2) by (simp add: stored_rates_ok_def per_distance_rate_Num per_time_rate_Num)
  with assms(1) rows show ?thesis
    by simp
qed

lemma delete_keeps_rates:
  assumes "\<forall>t \<in> set (rows db). stored_rates_ok t"
  shows "\<forall>t \<in> set (rows (delete_daily_trips db now uid date_arg)). stored_rates_ok t"
  using assms by (simp add: delete_daily_trips_def)

text \<open>
  Claim C10. In every store the program can reach, each row holds the rates that the two
  formulas give for the fare, distance and duration of that same row: \<^verbatim>\<open>add_trip\<close>
  establishes it for the row it appends and changes no other row,
  \<^verbatim>\<open>delete_daily_trips\<close> only removes rows, and the two queries return no store.
\<close>

theorem stored_rates_invariant:
  "reachable db \<Longrightarrow> \<forall>t \<in> set (rows db). stored_rates_ok t"
proof (induction rule: reachable.induct)
  case created
  show ?case by (simp add: init_db_def)
next
  case (added db now ts uid uname trf dst dur db' pk ph)
  then show ?case using add_trip_keeps_rates by blast
next
  case (deleted db now uid date_arg)
  then show ?case using delete_keeps_rates by blast
qed

theorem stored_rates_invariant_witness:
  "reachable
     \<lparr>rows = [\<lparr>id_col = 1, user_id = 1, user_name = None, tariff = 5200, distance = 14,
               duration = 28, per_km = 2600 / 7, per_hour = 78000 / 7,
               timestamp = ''2024-03-08 10:00:00'', date = ''2024-03-08''\<rparr>], last_id = 1\<rparr> \<and>
   stored_rates_ok
     \<lparr>id_col = 1, user_id = 1, user_name = None, tariff = 5200, distance = 14,
      duration = 28, per_km = 2600 / 7, per_hour = 78000 / 7,
      timestamp = ''2024-03-08 10:00:00'', date = ''2024-03-08''\<rparr>"
proof -
  let ?row = "\<lparr>id_col = 1, user_id = 1, user_name = None, tariff = 5200, distance = 14,
      duration = 28, per_km = 2600 / 7, per_hour = 78000 / 7,
      timestamp = ''2024-03-08 10:00:00'', date = ''2024-03-08''\<rparr>"
  have r28: "- (2 ^ 63) \<le> (28::int)" "(28::int) < 2 ^ 63"
    by simp_all
  have a: "add_trip (init_db None) (Datetime 2024 3 8) ''2024-03-08 10:00:00'' 1 None
             (Num 5200) (Num 14) 28
             = Inr (\<lparr>rows = [?row], last_id = 1\<rparr>, Num (2600 / 7), Num (78000 / 7))"
    by (simp add: add_trip_Num [OF r28] init_db_def strftime_example)
  have r: "reachable \<lparr>rows = [?row], last_id = 1\<rparr>"
    using reachable.added [OF reachable.created a] .
  from stored_rates_invariant [OF r] r show ?thesis by simp
qed

section \<open>The order of formatted dates\<close>


















section \<open>The weekly window\<close>



text \<open>
  Claim C1 states that the weekly query counts exactly the trips of the user dated from
  today - 6 days to today, seven dates. The code compares with
  \<^verbatim>\<open>datetime.now() - timedelta(days=7)\<close>: on 2024-03-08 the date six days earlier is
  2024-03-02, but \<^verbatim>\<open>week_ago\<close> is 2024-03-01, and a trip dated 2024-03-01 is counted.
  The query covers eight dates, where its docstring speaks of the last 7 days.
\<close>

theorem weekly_counts_trip_of_seven_days_ago:
  "minus_days (Datetime 2024 3 8) 6 = Inr (Datetime 2024 3 2) \<and>
   minus_days (Datetime 2024 3 8) 7 = Inr (Datetime 2024 3 1) \<and>
   strftime (Datetime 2024 3 1) = ''2024-03-01'' \<and>
   get_weekly_stats
     \<lparr>rows = [\<lparr>id_col = 1, user_id = 1, user_name = None, tariff = 1000, distance = 5,
               duration = 10, per_km = 200, per_hour = 6000, timestamp = ''2024-03-01 10:00:00'',
               date = ''2024-03-01''\<rparr>], last_id = 1\<rparr>
     (Datetime 2024 3 8) 1
   = Inr \<lparr>trips_count = 1, total_money = 1000, total_distance = 5, avg_per_km = 200\<rparr>"
proof -
  let ?db = "\<lparr>rows = [\<lparr>id_col = 1, user_id = 1, user_name = None, tariff = 1000, distance = 5,
               duration = 10, per_km = 200, per_hour = 6000, timestamp = ''2024-03-01 10:00:00'',
               date = ''2024-03-01''\<rparr>], last_id = 1\<rparr>"
  have m6: "minus_days (Datetime 2024 3 8) 6 = Inr (Datetime 2024 3 2)"
    by code_simp
  have m7: "minus_days (Datetime 2024 3 8) 7 = Inr (Datetime 2024 3 1)"
    by code_simp
  have s7: "strftime (Datetime 2024 3 1) = ''2024-03-01''"
    by code_simp
  have "get_weekly_stats ?db (Datetime 2024 3 8) 1 =
          Inr (fetch_stats (select_weekly ?db 1 ''2024-03-01''))"
    by (simp only: get_weekly_stats_def m7 sum.case Let_def s7)
  then have "get_weekly_stats ?db (Datetime 2024 3 8) 1 =
          Inr \<lparr>trips_count = 1, total_money = 1000, total_distance = 5, avg_per_km = 200\<rparr>"
    by (simp add: select_weekly_def fetch_stats_eq)
  with m6 m7 s7 show ?thesis by blast
qed

end
